theory Spec2Isabelle
  imports
    Main
    "HOL-Library.Word"
    "HOL-Library.Finite_Map"
    "HOL-Library.Char_ord"
    "HOL-Library.List_Lexorder"
begin

unbundle bit_operations_syntax

section \<open>The capture-thread tracker of \<open>thread/thread.go\<close>\<close>

text \<open>
  A shallow embedding of package \<open>thread\<close>: one \<open>Thread\<close> watches the blockfiles of one
  stenotype thread, discovers new ones from the index directory, and deletes the oldest
  ones while the disk is too full.

  The embedding is sequential. The mutex \<open>t.mu\<close> is not modelled: every function below is
  the body that runs while the lock is held. Verbose logging through \<open>base.V\<close> is left
  out; every \<open>log.Printf\<close> is kept, as an entry of the log of the world.
\<close>

subsection \<open>Errors, panics and log lines\<close>

text \<open>
  A Go \<open>error\<close> value. \<open>ExternalError\<close> is an error returned by a call that leaves this
  file (\<open>os\<close>, \<open>ioutil\<close>, \<open>blockfile\<close>, \<open>base\<close>, \<open>query\<close>); the other two are built by
  \<open>fmt.Errorf\<close> in \<open>trackNewFile\<close> and \<open>untrackFile\<close>.
\<close>

datatype error =
    ExternalError string
  | CouldNotOpenBlockfile string error
  | NotMonitored string int

text \<open>A run-time panic: indexing a slice or string out of range, calling through nil.\<close>

datatype panic = IndexOutOfRange | NilPointerDereference

text \<open>One constructor for each \<open>log.Printf\<close> of the file, with its arguments.\<close>

datatype logline =
    ErrorTracking int string error
  | CouldNotReadDir int string error
  | CouldNotGetFreeDiskPercentage int string error
  | NoFilesAvailable int
  | CouldNotFreeUpSpace int error

subsection \<open>Data\<close>

text \<open>
  A \<open>*blockfile.BlockFile\<close> is a handle: an index into the heap of blockfile objects of
  the world. The object records the path it was opened on and whether \<open>Close\<close> was called.
  The map \<open>t.files\<close> only ever receives the non-nil result of a successful
  \<open>blockfile.NewBlockFile\<close>, so a key that is present maps to a handle.
\<close>

type_synonym handle = nat

record BlockFile =
  bf_Name :: string
  bf_closed :: bool

text \<open>An \<open>os.FileInfo\<close> as far as the file reads it.\<close>

record FileInfo =
  Name :: string
  IsDir :: bool

record Thread =
  thread_id :: int
  DiskFreePercentage :: int
  indexPath :: string
  packetPath :: string
  files :: "(string, handle) fmap"
  fileLastSeen :: nat

text \<open>
  What the functions change outside the \<open>Thread\<close>: the blockfile objects, the paths
  removed from disk by \<open>os.Remove\<close> (oldest first), the log, and the clock that
  \<open>time.Now\<close> reads and \<open>time.Sleep\<close> advances (in milliseconds).
\<close>

record world =
  heap :: "BlockFile list"
  removed :: "string list"
  logged :: "logline list"
  clock :: nat

text \<open>
  The answers of the calls that leave this file, for one run: the listing of a directory,
  whether a blockfile opens, whether a path can be removed. \<open>BlockfilePathFromIndexPath\<close>
  (package \<open>indexfile\<close>) and \<open>filepath.Join\<close> are parameters as well.
\<close>

record env =
  ioutil_ReadDir :: "string \<Rightarrow> error + FileInfo list"
  NewBlockFile_error :: "string \<Rightarrow> error option"
  os_Remove_error :: "string \<Rightarrow> error option"
  BlockfilePathFromIndexPath :: "string \<Rightarrow> string"
  filepath_Join :: "string \<Rightarrow> string \<Rightarrow> string"

subsection \<open>External calls\<close>

definition Printf :: "logline \<Rightarrow> world \<Rightarrow> world" where
  "Printf l w = w\<lparr>logged := logged w @ [l]\<rparr>"

definition time_Now :: "world \<Rightarrow> nat" where
  "time_Now w = clock w"

definition time_Sleep :: "nat \<Rightarrow> world \<Rightarrow> world" where
  "time_Sleep d w = w\<lparr>clock := clock w + d\<rparr>"

text \<open>\<open>os.Remove\<close>: on success the path is gone from disk.\<close>

definition os_Remove :: "env \<Rightarrow> string \<Rightarrow> world \<Rightarrow> error option \<times> world" where
  "os_Remove e p w =
     (case os_Remove_error e p of
        Some err \<Rightarrow> (Some err, w)
      | None \<Rightarrow> (None, w\<lparr>removed := removed w @ [p]\<rparr>))"

text \<open>\<open>blockfile.NewBlockFile\<close>: on success a new, open object and its handle.\<close>

definition NewBlockFile :: "env \<Rightarrow> string \<Rightarrow> world \<Rightarrow> (error + handle) \<times> world" where
  "NewBlockFile e p w =
     (case NewBlockFile_error e p of
        Some err \<Rightarrow> (Inl err, w)
      | None \<Rightarrow>
          (Inr (length (heap w)),
           w\<lparr>heap := heap w @ [\<lparr>bf_Name = p, bf_closed = False\<rparr>]\<rparr>))"

text \<open>\<open>b.Close()\<close> on the object behind a handle.\<close>

definition Close :: "handle \<Rightarrow> world \<Rightarrow> world" where
  "Close b w =
     (if b < length (heap w)
      then w\<lparr>heap := (heap w)[b := (heap w ! b)\<lparr>bf_closed := True\<rparr>]\<rparr>
      else w)"

text \<open>Whether the object behind a handle exists and has not been closed.\<close>

definition is_open :: "world \<Rightarrow> handle \<Rightarrow> bool" where
  "is_open w b = (b < length (heap w) \<and> \<not> bf_closed (heap w ! b))"

subsection \<open>Paths and the sorted file list\<close>

definition getPacketFilePath :: "env \<Rightarrow> Thread \<Rightarrow> string \<Rightarrow> string" where
  "getPacketFilePath e t filename = filepath_Join e (packetPath t) filename"

definition getIndexFilePath :: "env \<Rightarrow> Thread \<Rightarrow> string \<Rightarrow> string" where
  "getIndexFilePath e t filename = filepath_Join e (indexPath t) filename"

text \<open>
  \<open>getSortedFiles\<close> collects the keys of \<open>t.files\<close> (in the map's arbitrary order) and
  sorts them with \<open>sort.Strings\<close>: byte-wise lexicographic order, which is the order of
  \<open>string\<close> here. The result does not depend on the iteration order.
\<close>

definition getSortedFiles :: "Thread \<Rightarrow> string list" where
  "getSortedFiles t = sorted_list_of_fset (fmdom (files t))"

text \<open>The tracked file set: the keys of \<open>t.files\<close>.\<close>

definition tracked :: "Thread \<Rightarrow> string set" where
  "tracked t = fmdom' (files t)"

subsection \<open>Eviction\<close>

definition untrackFile :: "env \<Rightarrow> string \<Rightarrow> Thread \<Rightarrow> world \<Rightarrow> error option \<times> Thread \<times> world" where
  "untrackFile e filename t w =
     (case fmlookup (files t) filename of
        None \<Rightarrow> (Some (NotMonitored (getPacketFilePath e t filename) (thread_id t)), t, w)
      | Some b \<Rightarrow> (None, t\<lparr>files := fmdrop filename (files t)\<rparr>, Close b w))"

text \<open>
  \<open>deleteOldestThreadFile\<close> indexes the sorted list at 0, which panics on an empty list;
  then it removes the packet file, then the index file, and untracks the name. An error
  of either removal is returned at once.
\<close>

definition deleteOldestThreadFile ::
  "env \<Rightarrow> Thread \<Rightarrow> world \<Rightarrow> panic + (error option \<times> Thread \<times> world)" where
  "deleteOldestThreadFile e t w =
     (case getSortedFiles t of
        [] \<Rightarrow> Inl IndexOutOfRange
      | oldestFile # _ \<Rightarrow>
          (case os_Remove e (getPacketFilePath e t oldestFile) w of
             (Some err, w1) \<Rightarrow> Inr (Some err, t, w1)
           | (None, w1) \<Rightarrow>
               (case os_Remove e (getIndexFilePath e t oldestFile) w1 of
                  (Some err, w2) \<Rightarrow> Inr (Some err, t, w2)
                | (None, w2) \<Rightarrow> Inr (untrackFile e oldestFile t w2))))"

text \<open>
  The loop of \<open>cleanUpOnLowDiskSpace\<close>. Each iteration asks
  \<open>base.PathDiskFreePercentage\<close> once; the list holds its successive answers, so the
  recursion is on that list and \<open>None\<close> means that the loop has used all of them and is
  still running. \<open>len(t.files)\<close> is the number of keys.
\<close>

fun cleanUpOnLowDiskSpace ::
  "env \<Rightarrow> Thread \<Rightarrow> world \<Rightarrow> (error + int) list \<Rightarrow> (panic + Thread \<times> world) option" where
  "cleanUpOnLowDiskSpace e t w [] = None"
| "cleanUpOnLowDiskSpace e t w (Inl err # ms) =
     Some (Inr (t, Printf (CouldNotGetFreeDiskPercentage (thread_id t) (packetPath t) err) w))"
| "cleanUpOnLowDiskSpace e t w (Inr df # ms) =
     (if df > DiskFreePercentage t then Some (Inr (t, w))
      else if fcard (fmdom (files t)) = 0 then
        cleanUpOnLowDiskSpace e t
          (time_Sleep 100 (Printf (NoFilesAvailable (thread_id t)) w)) ms
      else
        (case deleteOldestThreadFile e t w of
           Inl p \<Rightarrow> Some (Inl p)
         | Inr (Some err, t', w') \<Rightarrow>
             Some (Inr (t', Printf (CouldNotFreeUpSpace (thread_id t') err) w'))
         | Inr (None, t', w') \<Rightarrow> cleanUpOnLowDiskSpace e t' (time_Sleep 100 w') ms))"

text \<open>
  The paths of the two artifacts of a blockfile, in the order in which
  \<open>deleteOldestThreadFile\<close> removes them.
\<close>

definition artifacts :: "env \<Rightarrow> Thread \<Rightarrow> string \<Rightarrow> string list" where
  "artifacts e t n = [getPacketFilePath e t n, getIndexFilePath e t n]"

text \<open>
  A measurement at which the loop returns: an error of the measurement, or a free
  percentage above the threshold.
\<close>

definition stops :: "Thread \<Rightarrow> error + int \<Rightarrow> bool" where
  "stops t m = (case m of Inl err \<Rightarrow> True | Inr df \<Rightarrow> df > DiskFreePercentage t)"

subsection \<open>Discovery\<close>

text \<open>
  The loop of \<open>listPacketFilesOnDisk\<close> over the directory entries, appending to \<open>out\<close>.
  The test \<open>file.IsDir() || file.Name()[0] == '.'\<close> evaluates the second operand only
  for an entry that is not a directory, and indexing an empty name panics.
\<close>

fun listLoop :: "env \<Rightarrow> FileInfo list \<Rightarrow> string list \<Rightarrow> panic + string list" where
  "listLoop e [] out = Inr out"
| "listLoop e (file # rest) out =
     (if IsDir file then listLoop e rest out
      else
        (case Name file of
           [] \<Rightarrow> Inl IndexOutOfRange
         | c # _ \<Rightarrow>
             if c = CHR ''.'' then listLoop e rest out
             else listLoop e rest (out @ [BlockfilePathFromIndexPath e (Name file)])))"

definition listPacketFilesOnDisk ::
  "env \<Rightarrow> Thread \<Rightarrow> world \<Rightarrow> panic + (string list \<times> world)" where
  "listPacketFilesOnDisk e t w =
     (case ioutil_ReadDir e (indexPath t) of
        Inl err \<Rightarrow> Inr ([], Printf (CouldNotReadDir (thread_id t) (indexPath t) err) w)
      | Inr entries \<Rightarrow>
          (case listLoop e entries [] of
             Inl p \<Rightarrow> Inl p
           | Inr out \<Rightarrow> Inr (out, w)))"

definition trackNewFile ::
  "env \<Rightarrow> string \<Rightarrow> Thread \<Rightarrow> world \<Rightarrow> error option \<times> Thread \<times> world" where
  "trackNewFile e filename t w =
     (let filepath = filepath_Join e (packetPath t) filename in
      case NewBlockFile e filepath w of
        (Inl err, w') \<Rightarrow> (Some (CouldNotOpenBlockfile filepath err), t, w')
      | (Inr bf, w') \<Rightarrow> (None, t\<lparr>files := fmupd filename bf (files t)\<rparr>, w'))"

text \<open>
  The loop of \<open>syncFilesWithDisk\<close> over the listed names. The counter \<open>newFilesCnt\<close>
  only feeds a verbose log line and is left out.
\<close>

fun syncLoop :: "env \<Rightarrow> string list \<Rightarrow> Thread \<Rightarrow> world \<Rightarrow> Thread \<times> world" where
  "syncLoop e [] t w = (t, w)"
| "syncLoop e (filename # rest) t w =
     (if fmlookup (files t) filename \<noteq> None then syncLoop e rest t w
      else
        (case trackNewFile e filename t w of
           (Some err, t', w') \<Rightarrow>
             syncLoop e rest t' (Printf (ErrorTracking (thread_id t') filename err) w')
         | (None, t', w') \<Rightarrow> syncLoop e rest (t'\<lparr>fileLastSeen := time_Now w'\<rparr>) w'))"

definition syncFilesWithDisk :: "env \<Rightarrow> Thread \<Rightarrow> world \<Rightarrow> panic + Thread \<times> world" where
  "syncFilesWithDisk e t w =
     (case listPacketFilesOnDisk e t w of
        Inl p \<Rightarrow> Inl p
      | Inr (names, w') \<Rightarrow> Inr (syncLoop e names t w'))"

text \<open>\<open>SyncFiles\<close>: discovery, then eviction, over the measurements of this call.\<close>

definition SyncFiles ::
  "env \<Rightarrow> (error + int) list \<Rightarrow> Thread \<Rightarrow> world \<Rightarrow> (panic + Thread \<times> world) option" where
  "SyncFiles e ms t w =
     (case syncFilesWithDisk e t w of
        Inl p \<Rightarrow> Some (Inl p)
      | Inr (t', w') \<Rightarrow> cleanUpOnLowDiskSpace e t' w' ms)"

text \<open>Whether the blockfile of a listed name opens, and the log lines of those that do not.\<close>

definition opens :: "env \<Rightarrow> Thread \<Rightarrow> string \<Rightarrow> bool" where
  "opens e t n = (NewBlockFile_error e (filepath_Join e (packetPath t) n) = None)"

definition tracking_errors :: "env \<Rightarrow> Thread \<Rightarrow> string list \<Rightarrow> logline list" where
  "tracking_errors e t names =
     concat (map (\<lambda>n.
       if n \<in> tracked t then []
       else (case NewBlockFile_error e (filepath_Join e (packetPath t) n) of
               None \<Rightarrow> []
             | Some err \<Rightarrow>
                 [ErrorTracking (thread_id t) n
                    (CouldNotOpenBlockfile (filepath_Join e (packetPath t) n) err)])) names)"

text \<open>The test on a file name that \<open>listPacketFilesOnDisk\<close> makes with \<open>Name()[0] == '.'\<close>.\<close>

definition begins_with_dot :: "string \<Rightarrow> bool" where
  "begins_with_dot n = (case n of [] \<Rightarrow> False | c # _ \<Rightarrow> c = CHR ''.'')"

text \<open>
  What the claim about discovery expects of one cycle, in the words of the spec: the
  names derived from the index artifacts on disk, minus those that fail to open.
\<close>

definition spec_tracked_after_discovery :: "env \<Rightarrow> Thread \<Rightarrow> string list \<Rightarrow> string set" where
  "spec_tracked_after_discovery e t names =
     {n \<in> set names. NewBlockFile_error e (filepath_Join e (packetPath t) n) = None}"

subsection \<open>Lookup\<close>

text \<open>
  The goroutine of \<open>Lookup\<close> walks \<open>getSortedFiles\<close>. For each file its \<open>select\<close> either
  hands a new packet channel to \<open>inputs\<close> and starts the file's own \<open>Lookup\<close> on it, or
  finds the context done and returns. \<open>lookupFile b q\<close> is what the blockfile behind \<open>b\<close>
  sends on its channel; \<open>cancel\<close> is the number of files handed over before the
  \<open>select\<close> takes the \<open>ctx.Done\<close> branch (\<open>None\<close>: never). The result is the sequence of
  channels sent on \<open>inputs\<close>, each with the name of its file. A name that is not a key
  would give a nil handle, and the call through it is a panic.
\<close>

fun fanOut ::
  "(handle \<Rightarrow> 'q \<Rightarrow> 'p list) \<Rightarrow> Thread \<Rightarrow> 'q \<Rightarrow> nat option \<Rightarrow> string list \<Rightarrow>
     panic + (string \<times> 'p list) list" where
  "fanOut lookupFile t q cancel [] = Inr []"
| "fanOut lookupFile t q cancel (file # rest) =
     (if cancel = Some 0 then Inr []
      else
        (case fmlookup (files t) file of
           None \<Rightarrow> Inl NilPointerDereference
         | Some b \<Rightarrow>
             (case fanOut lookupFile t q (map_option (\<lambda>n. n - 1) cancel) rest of
                Inl p \<Rightarrow> Inl p
              | Inr chans \<Rightarrow> Inr ((file, lookupFile b q) # chans))))"

text \<open>
  Modelled from the spec: \<open>base.ConcatPacketChans\<close> is not part of this file. The spec
  has it consume a stream of streams and emit a single flattened, order-preserving
  stream of packets. Each packet is paired with the file of the channel it came from.
\<close>

definition ConcatPacketChans :: "(string \<times> 'p list) list \<Rightarrow> (string \<times> 'p) list" where
  "ConcatPacketChans chans = concat (map (\<lambda>(file, ps). map (Pair file) ps) chans)"

definition Lookup ::
  "(handle \<Rightarrow> 'q \<Rightarrow> 'p list) \<Rightarrow> nat option \<Rightarrow> Thread \<Rightarrow> 'q \<Rightarrow> panic + (string \<times> 'p) list" where
  "Lookup lookupFile cancel t q =
     (case fanOut lookupFile t q cancel (getSortedFiles t) of
        Inl p \<Rightarrow> Inl p
      | Inr chans \<Rightarrow> Inr (ConcatPacketChans chans))"

text \<open>
  The files that the goroutine hands over before it stops, and the packets of one file in
  the merged stream, each paired with the name of the file.
\<close>

definition admitted :: "nat option \<Rightarrow> string list \<Rightarrow> string list" where
  "admitted cancel names = (case cancel of None \<Rightarrow> names | Some n \<Rightarrow> take n names)"

definition packets_of ::
  "(handle \<Rightarrow> 'q \<Rightarrow> 'p list) \<Rightarrow> Thread \<Rightarrow> 'q \<Rightarrow> string \<Rightarrow> (string \<times> 'p) list" where
  "packets_of lookupFile t q file =
     (case fmlookup (files t) file of
        None \<Rightarrow> []
      | Some b \<Rightarrow> map (Pair file) (lookupFile b q))"

subsection \<open>The debug handler for positions\<close>













subsection \<open>Example inputs\<close>

text \<open>
  A thread with threshold 10 over the given tracked files, a world with \<open>n\<close> open
  blockfiles, and an environment given by the entries of the index directory, the paths
  that do not open and the paths that cannot be removed.
\<close>

definition example_thread :: "(string \<times> handle) list \<Rightarrow> Thread" where
  "example_thread fs =
     \<lparr>thread_id = 0, DiskFreePercentage = 10, indexPath = ''IDX0'', packetPath = ''PKT0'',
      files = fmap_of_list fs, fileLastSeen = 0\<rparr>"

definition example_world :: "nat \<Rightarrow> world" where
  "example_world n =
     \<lparr>heap = replicate n \<lparr>bf_Name = ''PKT0/file'', bf_closed = False\<rparr>,
      removed = [], logged = [], clock = 1000\<rparr>"

definition example_env :: "(error + FileInfo list) \<Rightarrow> string list \<Rightarrow> string list \<Rightarrow> env" where
  "example_env listing unopenable unremovable =
     \<lparr>ioutil_ReadDir = (\<lambda>p. listing),
      NewBlockFile_error =
        (\<lambda>p. if p \<in> set unopenable then Some (ExternalError ''cannot open'') else None),
      os_Remove_error =
        (\<lambda>p. if p \<in> set unremovable then Some (ExternalError ''cannot remove'') else None),
      BlockfilePathFromIndexPath = (\<lambda>p. p),
      filepath_Join = (\<lambda>dir f. dir @ ''/'' @ f)\<rparr>"

text \<open>
  Example answers of the calls of the handlers: a blockfile lookup that finds three
  packets in the blockfile of handle 0 and none elsewhere, a query parser, a positions
  query with a fixed answer, and a sentinel for all positions.
\<close>

definition example_lookupFile :: "handle \<Rightarrow> unit \<Rightarrow> nat list" where
  "example_lookupFile b q = (if b = 0 then [10, 11, 12] else [])"




text \<open>The thread of a call that returned.\<close>

definition returned_thread :: "panic + Thread \<times> world \<Rightarrow> Thread option" where
  "returned_thread r = (case r of Inl p \<Rightarrow> None | Inr (t, w) \<Rightarrow> Some t)"

definition regular_file :: "string \<Rightarrow> FileInfo" where
  "regular_file n = \<lparr>Name = n, IsDir = False\<rparr>"

definition directory :: "string \<Rightarrow> FileInfo" where
  "directory n = \<lparr>Name = n, IsDir = True\<rparr>"

section \<open>Properties\<close>

subsection \<open>The sorted file list\<close>

lemma getSortedFiles_set: "set (getSortedFiles t) = tracked t"
  by (simp add: getSortedFiles_def tracked_def fmdom'_alt_def)

lemma getSortedFiles_sorted: "sorted (getSortedFiles t)"
  by (simp add: getSortedFiles_def sorted_list_of_fset.rep_eq)

lemma getSortedFiles_distinct: "distinct (getSortedFiles t)"
  by (simp add: getSortedFiles_def sorted_list_of_fset.rep_eq)

lemma getSortedFiles_Nil: "getSortedFiles t = [] \<longleftrightarrow> fcard (fmdom (files t)) = 0"
  by (simp add: getSortedFiles_def sorted_list_of_fset.rep_eq fcard.rep_eq)

lemma getSortedFiles_fmdrop_hd:
  assumes "getSortedFiles t = x # xs"
  shows "getSortedFiles (t\<lparr>files := fmdrop x (files t)\<rparr>) = xs"
proof (rule sorted_distinct_set_unique)
  have d: "distinct (x # xs)" and s: "sorted (x # xs)"
    using getSortedFiles_distinct [of t] getSortedFiles_sorted [of t] assms by simp_all
  show "sorted xs" using s by simp
  show "distinct xs" using d by simp
  show "sorted (getSortedFiles (t\<lparr>files := fmdrop x (files t)\<rparr>))"
    by (rule getSortedFiles_sorted)
  show "distinct (getSortedFiles (t\<lparr>files := fmdrop x (files t)\<rparr>))"
    by (rule getSortedFiles_distinct)
  have "set (x # xs) = tracked t"
    using getSortedFiles_set [of t] assms by simp
  then show "set (getSortedFiles (t\<lparr>files := fmdrop x (files t)\<rparr>)) = set xs"
    using d by (auto simp: getSortedFiles_set tracked_def)
qed

lemma getSortedFiles_lookup:
  "x \<in> set (getSortedFiles t) \<Longrightarrow> \<exists>b. fmlookup (files t) x = Some b"
  by (simp add: getSortedFiles_set tracked_def fmdom'_alt_def fmlookup_dom_iff)

lemma getSortedFiles_tracked: "getSortedFiles t = sorted_list_of_set (tracked t)"
  by (simp add: getSortedFiles_def tracked_def fmdom'_alt_def sorted_list_of_fset.rep_eq)

subsection \<open>Eviction\<close>

lemma deleteOldest_packet_fails:
  assumes "getSortedFiles t = x # xs"
    and "os_Remove_error e (getPacketFilePath e t x) = Some err"
  shows "deleteOldestThreadFile e t w = Inr (Some err, t, w)"
  using assms by (simp add: deleteOldestThreadFile_def os_Remove_def)

lemma deleteOldest_index_fails:
  assumes "getSortedFiles t = x # xs"
    and "os_Remove_error e (getPacketFilePath e t x) = None"
    and "os_Remove_error e (getIndexFilePath e t x) = Some err"
  shows "deleteOldestThreadFile e t w =
     Inr (Some err, t, w\<lparr>removed := removed w @ [getPacketFilePath e t x]\<rparr>)"
  using assms by (simp add: deleteOldestThreadFile_def os_Remove_def)

lemma deleteOldest_succeeds:
  assumes "getSortedFiles t = x # xs"
    and "os_Remove_error e (getPacketFilePath e t x) = None"
    and "os_Remove_error e (getIndexFilePath e t x) = None"
  shows "\<exists>b. fmlookup (files t) x = Some b \<and>
     deleteOldestThreadFile e t w =
       Inr (None, t\<lparr>files := fmdrop x (files t)\<rparr>,
            Close b (w\<lparr>removed := removed w @ artifacts e t x\<rparr>))"
proof -
  have "x \<in> set (getSortedFiles t)" using assms(1) by simp
  then obtain b where b: "fmlookup (files t) x = Some b"
    using getSortedFiles_lookup by blast
  then show ?thesis
    using assms by (simp add: deleteOldestThreadFile_def os_Remove_def untrackFile_def artifacts_def)
qed

lemma removed_Close [simp]: "removed (Close b w) = removed w"
  by (simp add: Close_def)

lemma removed_Printf [simp]: "removed (Printf l w) = removed w"
  by (simp add: Printf_def)

lemma removed_Sleep [simp]: "removed (time_Sleep d w) = removed w"
  by (simp add: time_Sleep_def)

lemma artifacts_files [simp]: "artifacts e (t\<lparr>files := fs\<rparr>) = artifacts e t"
  by (simp add: artifacts_def getPacketFilePath_def getIndexFilePath_def fun_eq_iff)

lemma fmrestrict_set_all: "fmrestrict_set (fmdom' m) m = m"
  by (rule fmap_ext) (auto simp: fmdom'_notI)

lemma fmrestrict_set_fmdrop: "x \<notin> S \<Longrightarrow> fmrestrict_set S (fmdrop x m) = fmrestrict_set S m"
  by (rule fmap_ext) auto

lemma cleanUp_run:
  assumes "\<forall>df \<in> set lows. df \<le> DiskFreePercentage t" and "stops t m"
  shows "\<exists>t' w' j extra.
      cleanUpOnLowDiskSpace e t w (map Inr lows @ m # rest) = Some (Inr (t', w')) \<and>
      j \<le> length lows \<and>
      t' = t\<lparr>files := fmrestrict_set (set (drop j (getSortedFiles t))) (files t)\<rparr> \<and>
      removed w' = removed w @ concat (map (artifacts e t) (take j (getSortedFiles t))) @ extra \<and>
      (extra = [] \<or> j < length (getSortedFiles t) \<and> extra = [getPacketFilePath e t (getSortedFiles t ! j)]) \<and>
      ((\<forall>p. os_Remove_error e p = None) \<longrightarrow> j = length lows \<and> extra = [])"
  using assms
proof (induction lows arbitrary: t w)
  case Nil
  have id: "t\<lparr>files := fmrestrict_set (set (getSortedFiles t)) (files t)\<rparr> = t"
    by (simp add: getSortedFiles_set tracked_def fmrestrict_set_all)
  show ?case
  proof (cases m)
    case (Inl err)
    then show ?thesis using id by simp
  next
    case (Inr df)
    then show ?thesis using Nil id by (simp add: stops_def)
  qed
next
  case (Cons df lows)
  have df: "\<not> df > DiskFreePercentage t" using Cons.prems by simp
  show ?case
  proof (cases "getSortedFiles t")
    case Nil
    then have emp: "fcard (fmdom (files t)) = 0" by (simp add: getSortedFiles_Nil)
    from Cons.IH [of t "time_Sleep 100 (Printf (NoFilesAvailable (thread_id t)) w)"] Cons.prems
    obtain t' w' j extra where
      "cleanUpOnLowDiskSpace e t (time_Sleep 100 (Printf (NoFilesAvailable (thread_id t)) w))
          (map Inr lows @ m # rest) = Some (Inr (t', w'))"
      "t' = t\<lparr>files := fmrestrict_set (set (drop j (getSortedFiles t))) (files t)\<rparr>"
      "removed w' = removed w @ concat (map (artifacts e t) (take j (getSortedFiles t))) @ extra"
      "extra = [] \<or> j < length (getSortedFiles t) \<and> extra = [getPacketFilePath e t (getSortedFiles t ! j)]"
      by auto
    with Nil emp df show ?thesis
      apply (intro exI [of _ t'] exI [of _ w'] exI [of _ "length (df # lows)"] exI [of _ "[]"])
      by simp
  next
    case (Cons x xs)
    then have nemp: "fcard (fmdom (files t)) \<noteq> 0" using getSortedFiles_Nil [of t] by simp
    let ?pkt = "getPacketFilePath e t x" and ?idx = "getIndexFilePath e t x"
    show ?thesis
    proof (cases "os_Remove_error e ?pkt")
      case (Some err)
      have "deleteOldestThreadFile e t w = Inr (Some err, t, w)"
        using Cons Some by (rule deleteOldest_packet_fails)
      then have run: "cleanUpOnLowDiskSpace e t w (map Inr (df # lows) @ m # rest) =
          Some (Inr (t, Printf (CouldNotFreeUpSpace (thread_id t) err) w))"
        using df nemp by simp
      have id: "t\<lparr>files := fmrestrict_set (set (getSortedFiles t)) (files t)\<rparr> = t"
        by (simp add: getSortedFiles_set tracked_def fmrestrict_set_all)
      show ?thesis
        apply (intro exI [of _ t] exI [of _ "Printf (CouldNotFreeUpSpace (thread_id t) err) w"]
            exI [of _ 0] exI [of _ "[]"])
        using run id Some by auto
    next
      case None
      note pkt = None
      show ?thesis
      proof (cases "os_Remove_error e ?idx")
        case (Some err)
        have "deleteOldestThreadFile e t w =
            Inr (Some err, t, w\<lparr>removed := removed w @ [?pkt]\<rparr>)"
          using Cons pkt Some by (rule deleteOldest_index_fails)
        then have run: "cleanUpOnLowDiskSpace e t w (map Inr (df # lows) @ m # rest) =
            Some (Inr (t, Printf (CouldNotFreeUpSpace (thread_id t) err)
              (w\<lparr>removed := removed w @ [?pkt]\<rparr>)))"
          using df nemp by simp
        have id: "t\<lparr>files := fmrestrict_set (set (getSortedFiles t)) (files t)\<rparr> = t"
          by (simp add: getSortedFiles_set tracked_def fmrestrict_set_all)
        show ?thesis
          apply (intro exI [of _ t]
              exI [of _ "Printf (CouldNotFreeUpSpace (thread_id t) err)
                (w\<lparr>removed := removed w @ [?pkt]\<rparr>)"]
              exI [of _ 0] exI [of _ "[?pkt]"])
          using run id Some Cons by auto
      next
        case None
        let ?t1 = "t\<lparr>files := fmdrop x (files t)\<rparr>"
        from deleteOldest_succeeds [OF Cons pkt None, of w]
        obtain b where del: "deleteOldestThreadFile e t w =
            Inr (None, ?t1, Close b (w\<lparr>removed := removed w @ artifacts e t x\<rparr>))"
          by blast
        let ?w1 = "time_Sleep 100 (Close b (w\<lparr>removed := removed w @ artifacts e t x\<rparr>))"
        have run: "cleanUpOnLowDiskSpace e t w (map Inr (df # lows) @ m # rest) =
            cleanUpOnLowDiskSpace e ?t1 ?w1 (map Inr lows @ m # rest)"
          using df nemp del by simp
        have sorted1: "getSortedFiles ?t1 = xs"
          using Cons by (rule getSortedFiles_fmdrop_hd)
        have pre: "\<forall>df \<in> set lows. df \<le> DiskFreePercentage ?t1" "stops ?t1 m"
          using Cons.prems by (auto simp: stops_def split: sum.splits)
        from Cons.IH [OF pre, of ?w1, unfolded sorted1]
        obtain t' w' j extra where ih:
          "cleanUpOnLowDiskSpace e ?t1 ?w1 (map Inr lows @ m # rest) = Some (Inr (t', w'))"
          "j \<le> length lows"
          "t' = ?t1\<lparr>files := fmrestrict_set (set (drop j xs)) (files ?t1)\<rparr>"
          "removed w' = removed ?w1 @ concat (map (artifacts e ?t1) (take j xs)) @ extra"
          "extra = [] \<or> j < length xs \<and> extra = [getPacketFilePath e ?t1 (xs ! j)]"
          "(\<forall>p. os_Remove_error e p = None) \<longrightarrow> j = length lows \<and> extra = []"
          by blast
        have "distinct (x # xs)" using getSortedFiles_distinct [of t] Cons by simp
        then have "x \<notin> set (drop j xs)" by (auto dest: in_set_dropD)
        then have t': "t' = t\<lparr>files := fmrestrict_set (set (drop (Suc j) (x # xs))) (files t)\<rparr>"
          using ih(3) by (simp add: fmrestrict_set_fmdrop)
        have p: "getPacketFilePath e ?t1 = getPacketFilePath e t"
          by (simp add: getPacketFilePath_def fun_eq_iff)
        show ?thesis
          apply (intro exI [of _ t'] exI [of _ w'] exI [of _ "Suc j"] exI [of _ extra])
          using run ih t' Cons p by auto
      qed
    qed
  qed
qed

lemma abc_sorted:
  "getSortedFiles (example_thread [(''A'', a), (''B'', b), (''C'', c)]) = [''A'', ''B'', ''C'']"
  by code_simp

text \<open>
  Claim C2. Let the measurements of one eviction phase start with \<open>lows\<close>, all at or
  below the threshold, followed by a measurement \<open>m\<close> that is above it (or fails). Then
  the phase returns at \<open>m\<close>, whatever follows. It has untracked the \<open>j\<close> smallest tracked
  names for some \<open>j\<close> that is at most the number of low measurements, the paths removed
  from disk are the artifacts of these \<open>j\<close> names in lexicographic order (plus the
  packet file of the next name when the removal of its index file failed), and when
  every removal succeeds \<open>j\<close> is exactly the number of low measurements. With no low
  measurement nothing is deleted.
\<close>

theorem eviction_deletes_oldest_while_low:
  assumes "\<forall>df \<in> set lows. df \<le> DiskFreePercentage t" and "stops t m"
  shows "\<exists>t' w' j extra.
      cleanUpOnLowDiskSpace e t w (map Inr lows @ m # rest) = Some (Inr (t', w')) \<and>
      j \<le> length lows \<and>
      getSortedFiles t = sorted_list_of_set (tracked t) \<and>
      t' = t\<lparr>files := fmrestrict_set (set (drop j (getSortedFiles t))) (files t)\<rparr> \<and>
      removed w' = removed w @ concat (map (artifacts e t) (take j (getSortedFiles t))) @ extra \<and>
      (extra = [] \<or>
       j < length (getSortedFiles t) \<and> extra = [getPacketFilePath e t (getSortedFiles t ! j)]) \<and>
      ((\<forall>p. os_Remove_error e p = None) \<longrightarrow> j = length lows \<and> extra = [])"
  using cleanUp_run [OF assms, of e w rest] getSortedFiles_tracked [of t] by simp

text \<open>
  The scenario of the claim: tracked files A, B and C, threshold 10 and the measurements
  5, 5, 12. The files of A and then of B are removed, and C stays tracked.
\<close>

theorem eviction_example_witness:
  "\<exists>t' w'.
     cleanUpOnLowDiskSpace (example_env (Inr []) [] [])
       (example_thread [(''A'', 0), (''B'', 1), (''C'', 2)]) (example_world 3)
       [Inr 5, Inr 5, Inr 12] = Some (Inr (t', w')) \<and>
     tracked t' = {''C''} \<and>
     removed w' = [''PKT0/A'', ''IDX0/A'', ''PKT0/B'', ''IDX0/B'']"
proof -
  let ?t = "example_thread [(''A'', 0), (''B'', 1), (''C'', 2)]"
  let ?e = "example_env (Inr []) [] []"
  have low: "\<forall>df \<in> set [5, 5]. df \<le> DiskFreePercentage ?t"
    by (simp add: example_thread_def)
  have stop: "stops ?t (Inr 12)"
    by (simp add: stops_def example_thread_def)
  have ok: "\<forall>p. os_Remove_error ?e p = None"
    by (simp add: example_env_def)
  from eviction_deletes_oldest_while_low [OF low stop, of ?e "example_world 3" "[]"]
  obtain t' w' j extra where r:
    "cleanUpOnLowDiskSpace ?e ?t (example_world 3) (map Inr [5, 5] @ [Inr 12]) = Some (Inr (t', w'))"
    "t' = ?t\<lparr>files := fmrestrict_set (set (drop j (getSortedFiles ?t))) (files ?t)\<rparr>"
    "removed w' =
       removed (example_world 3) @ concat (map (artifacts ?e ?t) (take j (getSortedFiles ?t))) @ extra"
    "(\<forall>p. os_Remove_error ?e p = None) \<longrightarrow> j = length [5, 5 :: int] \<and> extra = []"
    by blast
  from r(4) ok have j: "j = 2" and extra: "extra = []" by simp_all
  have "t' = ?t\<lparr>files := fmrestrict_set {''C''} (files ?t)\<rparr>"
    using r(2) j by (simp add: abc_sorted)
  then have "tracked t' = {''C''}"
    by (auto simp: tracked_def example_thread_def fmdom'_restrict_set_precise)
  moreover have "removed w' =
      removed (example_world 3) @ concat (map (artifacts ?e ?t) [''A'', ''B''])"
    using r(3) j extra by (simp add: abc_sorted)
  then have "removed w' = [''PKT0/A'', ''IDX0/A'', ''PKT0/B'', ''IDX0/B'']"
    by (simp add: artifacts_def getPacketFilePath_def getIndexFilePath_def
        example_env_def example_thread_def example_world_def)
  ultimately show ?thesis using r(1) by simp
qed

text \<open>
  Claim C4. With the free percentage at or below the threshold and no tracked file, the
  loop logs that no files are available, and then it does not return: it sleeps and
  measures again. Here no file is tracked and the threshold is 10. On the measurement 5
  alone the loop has not returned; on 5, 5, 12 it has logged the stuck condition twice,
  slept twice, and returned only at the measurement 12.
\<close>

theorem stuck_eviction_keeps_measuring:
  "cleanUpOnLowDiskSpace (example_env (Inr []) [] []) (example_thread []) (example_world 0)
     [Inr 5] = None \<and>
   map_option (map_sum id (\<lambda>(t, w). (logged w, clock w)))
     (cleanUpOnLowDiskSpace (example_env (Inr []) [] []) (example_thread []) (example_world 0)
        [Inr 5, Inr 5, Inr 12]) =
     Some (Inr ([NoFilesAvailable 0, NoFilesAvailable 0], 1200))"
  by (simp add: example_thread_def example_world_def Printf_def time_Sleep_def)

text \<open>
  Claim C9. For a thread with at least one tracked file, let \<open>oldestFile\<close> be the
  smallest tracked name. When both removals succeed, \<open>deleteOldestThreadFile\<close> untracks
  the name, closes its handle, has removed the packet file and then the index file, and
  logs nothing. When the removal of the packet file fails, or that of the index file
  after it, the error is returned, the thread (so the tracked set) is unchanged, no
  blockfile object has changed (so the handle is as open as before) and nothing is
  logged yet; the eviction loop then returns with the thread unchanged and its log
  extended by exactly one line, the report of that error.
\<close>

theorem eviction_untracks_only_after_both_removals:
  assumes "getSortedFiles t = oldestFile # others"
  shows "\<exists>b. fmlookup (files t) oldestFile = Some b \<and>
     (os_Remove_error e (getPacketFilePath e t oldestFile) = None \<and>
      os_Remove_error e (getIndexFilePath e t oldestFile) = None \<longrightarrow>
        (\<exists>w'. deleteOldestThreadFile e t w =
                 Inr (None, t\<lparr>files := fmdrop oldestFile (files t)\<rparr>, w') \<and>
              \<not> is_open w' b \<and>
              removed w' = removed w @ artifacts e t oldestFile \<and>
              logged w' = logged w)) \<and>
     (\<forall>err. os_Remove_error e (getPacketFilePath e t oldestFile) = Some err \<or>
            os_Remove_error e (getPacketFilePath e t oldestFile) = None \<and>
            os_Remove_error e (getIndexFilePath e t oldestFile) = Some err \<longrightarrow>
        (\<exists>w'. deleteOldestThreadFile e t w = Inr (Some err, t, w') \<and>
              heap w' = heap w \<and>
              logged w' = logged w \<and>
              (\<forall>df ms. df \<le> DiskFreePercentage t \<longrightarrow>
                 (\<exists>w''. cleanUpOnLowDiskSpace e t w (Inr df # ms) = Some (Inr (t, w'')) \<and>
                    w'' = Printf (CouldNotFreeUpSpace (thread_id t) err) w' \<and>
                    heap w'' = heap w \<and>
                    logged w'' = logged w @ [CouldNotFreeUpSpace (thread_id t) err]))))"
proof -
  have "oldestFile \<in> set (getSortedFiles t)" using assms by simp
  then obtain b where b: "fmlookup (files t) oldestFile = Some b"
    using getSortedFiles_lookup by blast
  have nemp: "fcard (fmdom (files t)) \<noteq> 0"
    using assms getSortedFiles_Nil [of t] by simp
  have ok: "os_Remove_error e (getPacketFilePath e t oldestFile) = None \<and>
      os_Remove_error e (getIndexFilePath e t oldestFile) = None \<longrightarrow>
        (\<exists>w'. deleteOldestThreadFile e t w =
                 Inr (None, t\<lparr>files := fmdrop oldestFile (files t)\<rparr>, w') \<and>
              \<not> is_open w' b \<and>
              removed w' = removed w @ artifacts e t oldestFile \<and>
              logged w' = logged w)"
    using deleteOldest_succeeds [OF assms, of e w] b
    by (auto simp: is_open_def Close_def)
  have bad: "\<exists>w'. deleteOldestThreadFile e t w = Inr (Some err, t, w') \<and>
              heap w' = heap w \<and>
              logged w' = logged w \<and>
              (\<forall>df ms. df \<le> DiskFreePercentage t \<longrightarrow>
                 (\<exists>w''. cleanUpOnLowDiskSpace e t w (Inr df # ms) = Some (Inr (t, w'')) \<and>
                    w'' = Printf (CouldNotFreeUpSpace (thread_id t) err) w' \<and>
                    heap w'' = heap w \<and>
                    logged w'' = logged w @ [CouldNotFreeUpSpace (thread_id t) err]))"
    if "os_Remove_error e (getPacketFilePath e t oldestFile) = Some err \<or>
        os_Remove_error e (getPacketFilePath e t oldestFile) = None \<and>
        os_Remove_error e (getIndexFilePath e t oldestFile) = Some err" for err
    using that
  proof
    assume "os_Remove_error e (getPacketFilePath e t oldestFile) = Some err"
    then have "deleteOldestThreadFile e t w = Inr (Some err, t, w)"
      using assms deleteOldest_packet_fails by blast
    then show ?thesis using nemp by (simp add: Printf_def)
  next
    assume "os_Remove_error e (getPacketFilePath e t oldestFile) = None \<and>
        os_Remove_error e (getIndexFilePath e t oldestFile) = Some err"
    then have "deleteOldestThreadFile e t w =
        Inr (Some err, t, w\<lparr>removed := removed w @ [getPacketFilePath e t oldestFile]\<rparr>)"
      using assms deleteOldest_index_fails by blast
    then show ?thesis using nemp by (simp add: Printf_def)
  qed
  show ?thesis using b ok bad by blast
qed

text \<open>
  Both cases on the thread that tracks A, B and C: every removal succeeds, and the
  removal of the index file of A fails. In the second case the eviction loop returns
  with the thread as it was, no blockfile object changed, and the error as the one line
  of its log.
\<close>

theorem eviction_untracks_only_after_both_removals_witness:
  "(\<exists>w'. deleteOldestThreadFile (example_env (Inr []) [] [])
            (example_thread [(''A'', 0), (''B'', 1), (''C'', 2)]) (example_world 3) =
          Inr (None,
               (example_thread [(''A'', 0), (''B'', 1), (''C'', 2)])
                 \<lparr>files := fmdrop ''A'' (files (example_thread [(''A'', 0), (''B'', 1), (''C'', 2)]))\<rparr>,
               w') \<and>
         \<not> is_open w' 0 \<and> removed w' = [''PKT0/A'', ''IDX0/A''] \<and> logged w' = []) \<and>
   (\<exists>w'. deleteOldestThreadFile (example_env (Inr []) [] [''IDX0/A''])
            (example_thread [(''A'', 0), (''B'', 1), (''C'', 2)]) (example_world 3) =
          Inr (Some (ExternalError ''cannot remove''),
               example_thread [(''A'', 0), (''B'', 1), (''C'', 2)], w') \<and>
         heap w' = heap (example_world 3) \<and> logged w' = []) \<and>
   (\<exists>w''. cleanUpOnLowDiskSpace (example_env (Inr []) [] [''IDX0/A''])
            (example_thread [(''A'', 0), (''B'', 1), (''C'', 2)]) (example_world 3) [Inr 5] =
           Some (Inr (example_thread [(''A'', 0), (''B'', 1), (''C'', 2)], w'')) \<and>
         heap w'' = heap (example_world 3) \<and>
         logged w'' = [CouldNotFreeUpSpace 0 (ExternalError ''cannot remove'')])"
proof -
  let ?t = "example_thread [(''A'', 0), (''B'', 1), (''C'', 2)]"
  let ?w = "example_world 3"
  let ?ok = "example_env (Inr []) [] []"
  let ?bad = "example_env (Inr []) [] [''IDX0/A'']"
  have s: "getSortedFiles ?t = ''A'' # [''B'', ''C'']"
    by (simp add: abc_sorted)
  have b: "fmlookup (files ?t) ''A'' = Some 0"
    by (simp add: example_thread_def)
  have ok: "os_Remove_error ?ok (getPacketFilePath ?ok ?t ''A'') = None \<and>
      os_Remove_error ?ok (getIndexFilePath ?ok ?t ''A'') = None"
    by (simp add: example_env_def)
  have bad: "os_Remove_error ?bad (getPacketFilePath ?bad ?t ''A'') = None \<and>
      os_Remove_error ?bad (getIndexFilePath ?bad ?t ''A'') = Some (ExternalError ''cannot remove'')"
    by (simp add: example_env_def getPacketFilePath_def getIndexFilePath_def example_thread_def)
  have arts: "removed ?w @ artifacts ?ok ?t ''A'' = [''PKT0/A'', ''IDX0/A'']"
    by (simp add: artifacts_def getPacketFilePath_def getIndexFilePath_def example_env_def
        example_thread_def example_world_def)
  have low: "(5::int) \<le> DiskFreePercentage ?t" and id: "thread_id ?t = 0"
    by (simp_all add: example_thread_def)
  have nolog: "logged ?w = []"
    by (simp add: example_world_def)
  from eviction_untracks_only_after_both_removals [OF s, of ?ok ?w] ok
  obtain b' w1 where w1:
    "fmlookup (files ?t) ''A'' = Some b'"
    "deleteOldestThreadFile ?ok ?t ?w = Inr (None, ?t\<lparr>files := fmdrop ''A'' (files ?t)\<rparr>, w1)"
    "\<not> is_open w1 b'"
    "removed w1 = removed ?w @ artifacts ?ok ?t ''A''"
    "logged w1 = logged ?w"
    by blast
  have "b' = 0" using w1(1) b by simp
  then have first: "\<exists>w'. deleteOldestThreadFile ?ok ?t ?w =
          Inr (None, ?t\<lparr>files := fmdrop ''A'' (files ?t)\<rparr>, w') \<and>
         \<not> is_open w' 0 \<and> removed w' = [''PKT0/A'', ''IDX0/A''] \<and> logged w' = []"
    using w1(2,3,4,5) unfolding arts nolog by blast
  from eviction_untracks_only_after_both_removals [OF s, of ?bad ?w] bad
  obtain w' where w':
    "deleteOldestThreadFile ?bad ?t ?w = Inr (Some (ExternalError ''cannot remove''), ?t, w')"
    "heap w' = heap ?w" "logged w' = logged ?w"
    "\<forall>df ms. df \<le> DiskFreePercentage ?t \<longrightarrow>
       (\<exists>w''. cleanUpOnLowDiskSpace ?bad ?t ?w (Inr df # ms) = Some (Inr (?t, w'')) \<and>
          w'' = Printf (CouldNotFreeUpSpace (thread_id ?t) (ExternalError ''cannot remove'')) w' \<and>
          heap w'' = heap ?w \<and>
          logged w'' = logged ?w @ [CouldNotFreeUpSpace (thread_id ?t) (ExternalError ''cannot remove'')])"
    by blast
  have second: "\<exists>w'. deleteOldestThreadFile ?bad ?t ?w =
          Inr (Some (ExternalError ''cannot remove''), ?t, w') \<and>
         heap w' = heap ?w \<and> logged w' = []"
    using w'(1,2,3) unfolding nolog by blast
  from w'(4) low obtain w'' where w'':
    "cleanUpOnLowDiskSpace ?bad ?t ?w (Inr 5 # []) = Some (Inr (?t, w''))"
    "heap w'' = heap ?w"
    "logged w'' =
       logged ?w @ [CouldNotFreeUpSpace (thread_id ?t) (ExternalError ''cannot remove'')]"
    by blast
  have third: "\<exists>w''. cleanUpOnLowDiskSpace ?bad ?t ?w [Inr 5] = Some (Inr (?t, w'')) \<and>
         heap w'' = heap ?w \<and>
         logged w'' = [CouldNotFreeUpSpace 0 (ExternalError ''cannot remove'')]"
    using w'' unfolding id nolog append_Nil by blast
  show ?thesis using first second third by blast
qed

subsection \<open>Discovery\<close>

lemma trackNewFile_fails:
  "NewBlockFile_error e (filepath_Join e (packetPath t) n) = Some err \<Longrightarrow>
   trackNewFile e n t w = (Some (CouldNotOpenBlockfile (filepath_Join e (packetPath t) n) err), t, w)"
  by (simp add: trackNewFile_def NewBlockFile_def)

lemma trackNewFile_opens:
  "NewBlockFile_error e (filepath_Join e (packetPath t) n) = None \<Longrightarrow>
   trackNewFile e n t w =
     (None, t\<lparr>files := fmupd n (length (heap w)) (files t)\<rparr>,
      w\<lparr>heap := heap w @ [\<lparr>bf_Name = filepath_Join e (packetPath t) n, bf_closed = False\<rparr>]\<rparr>)"
  by (simp add: trackNewFile_def NewBlockFile_def)

lemma tracked_iff: "n \<in> tracked t \<longleftrightarrow> fmlookup (files t) n \<noteq> None"
  by (simp add: tracked_def fmdom'_alt_def fmlookup_dom_iff)

lemma syncLoop_step_tracked:
  "n \<in> tracked t \<Longrightarrow> syncLoop e (n # rest) t w = syncLoop e rest t w"
  by (simp add: tracked_iff)

lemma syncLoop_step_fails:
  "n \<notin> tracked t \<Longrightarrow> NewBlockFile_error e (filepath_Join e (packetPath t) n) = Some err \<Longrightarrow>
   syncLoop e (n # rest) t w =
     syncLoop e rest t
       (Printf (ErrorTracking (thread_id t) n
          (CouldNotOpenBlockfile (filepath_Join e (packetPath t) n) err)) w)"
  by (simp add: tracked_iff trackNewFile_fails)

lemma syncLoop_step_opens:
  "n \<notin> tracked t \<Longrightarrow> NewBlockFile_error e (filepath_Join e (packetPath t) n) = None \<Longrightarrow>
   syncLoop e (n # rest) t w =
     syncLoop e rest
       (t\<lparr>files := fmupd n (length (heap w)) (files t), fileLastSeen := clock w\<rparr>)
       (w\<lparr>heap := heap w @ [\<lparr>bf_Name = filepath_Join e (packetPath t) n, bf_closed = False\<rparr>]\<rparr>)"
  by (simp add: tracked_iff trackNewFile_opens time_Now_def)

lemma syncLoop_noop: "set names \<subseteq> tracked t \<Longrightarrow> syncLoop e names t w = (t, w)"
  by (induction names) (simp_all add: tracked_iff)

lemma syncLoop_tracked:
  "tracked (fst (syncLoop e names t w)) = tracked t \<union> {n \<in> set names. opens e t n}"
proof (induction names arbitrary: t w)
  case Nil
  show ?case by simp
next
  case (Cons n rest)
  show ?case
  proof (cases "n \<in> tracked t")
    case True
    then show ?thesis using Cons.IH [of t w]
      by (auto simp: syncLoop_step_tracked simp del: syncLoop.simps)
  next
    case False
    show ?thesis
    proof (cases "NewBlockFile_error e (filepath_Join e (packetPath t) n)")
      case (Some err)
      then have "\<not> opens e t n" by (simp add: opens_def)
      then show ?thesis
        using Cons.IH [of t] False Some
        by (auto simp: syncLoop_step_fails simp del: syncLoop.simps)
    next
      case None
      let ?t1 = "t\<lparr>files := fmupd n (length (heap w)) (files t), fileLastSeen := clock w\<rparr>"
      have "opens e t n" using None by (simp add: opens_def)
      moreover have "tracked ?t1 = insert n (tracked t)" by (simp add: tracked_def)
      moreover have "opens e ?t1 = opens e t" by (simp add: opens_def fun_eq_iff)
      ultimately show ?thesis
        using Cons.IH [of ?t1] False None
        by (auto simp: syncLoop_step_opens simp del: syncLoop.simps)
    qed
  qed
qed

lemma syncLoop_logged:
  "logged (snd (syncLoop e names t w)) = logged w @ tracking_errors e t names"
proof (induction names arbitrary: t w)
  case Nil
  show ?case by (simp add: tracking_errors_def)
next
  case (Cons n rest)
  show ?case
  proof (cases "n \<in> tracked t")
    case True
    then show ?thesis using Cons.IH [of t w]
      by (simp add: syncLoop_step_tracked tracking_errors_def del: syncLoop.simps)
  next
    case False
    show ?thesis
    proof (cases "NewBlockFile_error e (filepath_Join e (packetPath t) n)")
      case (Some err)
      then show ?thesis
        using Cons.IH [of t] False
        by (simp add: syncLoop_step_fails tracking_errors_def Printf_def del: syncLoop.simps)
    next
      case None
      let ?t1 = "t\<lparr>files := fmupd n (length (heap w)) (files t), fileLastSeen := clock w\<rparr>"
      have "tracking_errors e ?t1 rest = tracking_errors e t rest"
        unfolding tracking_errors_def
        by (rule arg_cong [where f = concat], rule map_cong)
          (auto simp: tracked_def None split: option.splits)
      then show ?thesis
        using Cons.IH [of ?t1] False None
        by (simp add: syncLoop_step_opens tracking_errors_def del: syncLoop.simps)
    qed
  qed
qed

lemma listLoop_eq:
  assumes "\<forall>f \<in> set entries. \<not> IsDir f \<longrightarrow> Name f \<noteq> []"
  shows "listLoop e entries out =
     Inr (out @ map (\<lambda>f. BlockfilePathFromIndexPath e (Name f))
                  (filter (\<lambda>f. \<not> IsDir f \<and> \<not> begins_with_dot (Name f)) entries))"
  using assms
  by (induction entries arbitrary: out) (auto simp: begins_with_dot_def split: list.splits)

lemma listPacketFilesOnDisk_fails:
  "ioutil_ReadDir e (indexPath t) = Inl err \<Longrightarrow>
   listPacketFilesOnDisk e t w =
     Inr ([], Printf (CouldNotReadDir (thread_id t) (indexPath t) err) w)"
  by (simp add: listPacketFilesOnDisk_def)

lemma spec_tracked_opens:
  "spec_tracked_after_discovery e t names = {n \<in> set names. opens e t n}"
  by (simp add: spec_tracked_after_discovery_def opens_def)

lemma example_listing:
  assumes "[] \<notin> set names"
  shows "listPacketFilesOnDisk (example_env (Inr (map regular_file names)) bad1 bad2) t w =
     Inr (filter (\<lambda>n. \<not> begins_with_dot n) names, w)"
proof -
  let ?e = "example_env (Inr (map regular_file names)) bad1 bad2"
  have "listLoop ?e (map regular_file names) [] =
      Inr ([] @ map (\<lambda>f. BlockfilePathFromIndexPath ?e (Name f))
             (filter (\<lambda>f. \<not> IsDir f \<and> \<not> begins_with_dot (Name f)) (map regular_file names)))"
    using assms by (intro listLoop_eq) (auto simp: regular_file_def)
  then show ?thesis
    by (simp add: listPacketFilesOnDisk_def example_env_def regular_file_def filter_map comp_def)
qed

text \<open>
  Claim C10. When \<open>ioutil.ReadDir\<close> fails, \<open>listPacketFilesOnDisk\<close> logs the error and
  returns no names; \<open>syncFilesWithDisk\<close> then leaves the thread as it is, returns
  nothing to its caller, and \<open>SyncFiles\<close> goes on to the eviction phase. When the
  directory is read (and no entry that is not a directory has an empty name, which
  would panic), the names returned are those of the entries that are neither a
  directory nor begin with a dot, in the order of the listing, each mapped through
  \<open>BlockfilePathFromIndexPath\<close>.
\<close>

theorem listing_skips_directories_and_hidden_files:
  "(\<forall>err. ioutil_ReadDir e (indexPath t) = Inl err \<longrightarrow>
      listPacketFilesOnDisk e t w =
        Inr ([], Printf (CouldNotReadDir (thread_id t) (indexPath t) err) w) \<and>
      syncFilesWithDisk e t w =
        Inr (t, Printf (CouldNotReadDir (thread_id t) (indexPath t) err) w) \<and>
      SyncFiles e ms t w =
        cleanUpOnLowDiskSpace e t (Printf (CouldNotReadDir (thread_id t) (indexPath t) err) w) ms) \<and>
   (\<forall>entries. ioutil_ReadDir e (indexPath t) = Inr entries \<and>
        (\<forall>f \<in> set entries. \<not> IsDir f \<longrightarrow> Name f \<noteq> []) \<longrightarrow>
      listPacketFilesOnDisk e t w =
        Inr (map (\<lambda>f. BlockfilePathFromIndexPath e (Name f))
               (filter (\<lambda>f. \<not> IsDir f \<and> \<not> begins_with_dot (Name f)) entries), w))"
  by (auto simp: listPacketFilesOnDisk_def syncFilesWithDisk_def SyncFiles_def listLoop_eq)

text \<open>
  A listing with a subdirectory and a dot file, and a directory that cannot be read.
\<close>

theorem listing_skips_directories_and_hidden_files_witness:
  "listPacketFilesOnDisk
     (example_env (Inr [regular_file ''a'', directory ''sub'', regular_file ''.tmp'',
        regular_file ''b'']) [] [])
     (example_thread []) (example_world 0) = Inr ([''a'', ''b''], example_world 0) \<and>
   syncFilesWithDisk (example_env (Inl (ExternalError ''no such directory'')) [] [])
     (example_thread [(''A'', 0)]) (example_world 1) =
     Inr (example_thread [(''A'', 0)],
          Printf (CouldNotReadDir 0 ''IDX0'' (ExternalError ''no such directory''))
            (example_world 1))"
proof -
  let ?entries = "[regular_file ''a'', directory ''sub'', regular_file ''.tmp'', regular_file ''b'']"
  let ?e = "example_env (Inr ?entries) [] []"
  let ?bad = "example_env (Inl (ExternalError ''no such directory'')) [] []"
  have 1: "ioutil_ReadDir ?e (indexPath (example_thread [])) = Inr ?entries \<and>
      (\<forall>f \<in> set ?entries. \<not> IsDir f \<longrightarrow> Name f \<noteq> [])"
    by (simp add: example_env_def regular_file_def directory_def)
  have 2: "ioutil_ReadDir ?bad (indexPath (example_thread [(''A'', 0)])) =
      Inl (ExternalError ''no such directory'')"
    by (simp add: example_env_def)
  have 3: "map (\<lambda>f. BlockfilePathFromIndexPath ?e (Name f))
      (filter (\<lambda>f. \<not> IsDir f \<and> \<not> begins_with_dot (Name f)) ?entries) = [''a'', ''b'']"
    by (simp add: example_env_def regular_file_def directory_def begins_with_dot_def)
  have 4: "thread_id (example_thread [(''A'', 0)]) = 0"
    "indexPath (example_thread [(''A'', 0)]) = ''IDX0''"
    by (simp_all add: example_thread_def)
  from listing_skips_directories_and_hidden_files [of ?e "example_thread []" "example_world 0" "[]"] 1
  have "listPacketFilesOnDisk ?e (example_thread []) (example_world 0) =
      Inr (map (\<lambda>f. BlockfilePathFromIndexPath ?e (Name f))
        (filter (\<lambda>f. \<not> IsDir f \<and> \<not> begins_with_dot (Name f)) ?entries), example_world 0)"
    by blast
  moreover
  from listing_skips_directories_and_hidden_files
    [of ?bad "example_thread [(''A'', 0)]" "example_world 1" "[]"] 2
  have "syncFilesWithDisk ?bad (example_thread [(''A'', 0)]) (example_world 1) =
     Inr (example_thread [(''A'', 0)],
          Printf (CouldNotReadDir (thread_id (example_thread [(''A'', 0)]))
            (indexPath (example_thread [(''A'', 0)])) (ExternalError ''no such directory''))
            (example_world 1))"
    by blast
  ultimately show ?thesis by (simp only: 3 4)
qed

text \<open>
  Claim C5, as the code has it. Discovery only adds: after a cycle the tracked set is the
  tracked set from before the cycle together with the listed names whose blockfile
  opens. A name tracked before the cycle stays tracked whether or not its index artifact
  is still on disk.
\<close>

theorem discovery_only_adds:
  assumes "listPacketFilesOnDisk e t w = Inr (names, w0)"
  shows "\<exists>t' w'. syncFilesWithDisk e t w = Inr (t', w') \<and>
     tracked t' = tracked t \<union> spec_tracked_after_discovery e t names"
proof -
  obtain t' w' where r: "syncLoop e names t w0 = (t', w')" by (cases "syncLoop e names t w0")
  then have "tracked t' = tracked t \<union> spec_tracked_after_discovery e t names"
    using syncLoop_tracked [of e names t w0] by (simp add: spec_tracked_opens)
  then show ?thesis using assms r by (simp add: syncFilesWithDisk_def)
qed

text \<open>
  The thread tracks A; the directory lists A, X and Y, and the blockfile of Y does not
  open.
\<close>

theorem discovery_only_adds_witness:
  "\<exists>t' w'. syncFilesWithDisk
       (example_env (Inr (map regular_file [''A'', ''X'', ''Y''])) [''PKT0/Y''] [])
       (example_thread [(''A'', 0)]) (example_world 1) = Inr (t', w') \<and>
     tracked t' = {''A'', ''X''}"
proof -
  let ?e = "example_env (Inr (map regular_file [''A'', ''X'', ''Y''])) [''PKT0/Y''] []"
  let ?t = "example_thread [(''A'', 0)]"
  have l: "listPacketFilesOnDisk ?e ?t (example_world 1) = Inr ([''A'', ''X'', ''Y''], example_world 1)"
    using example_listing [of "[''A'', ''X'', ''Y'']"] by (simp add: begins_with_dot_def)
  have "tracked ?t \<union> spec_tracked_after_discovery ?e ?t [''A'', ''X'', ''Y''] = {''A'', ''X''}"
    by (auto simp: spec_tracked_after_discovery_def tracked_def example_thread_def example_env_def)
  then show ?thesis using discovery_only_adds [OF l] by simp
qed

text \<open>
  Claim C5 as stated fails for a prior tracked set that holds a name with no index
  artifact on disk: the thread tracks A and the index directory is empty. Discovery
  returns with A still tracked, while the set of names on disk that open is empty.
\<close>

theorem discovery_only_adds_counterexample:
  "listPacketFilesOnDisk (example_env (Inr []) [] []) (example_thread [(''A'', 0)])
     (example_world 1) = Inr ([], example_world 1) \<and>
   map_option tracked (returned_thread
     (syncFilesWithDisk (example_env (Inr []) [] []) (example_thread [(''A'', 0)])
        (example_world 1))) = Some {''A''} \<and>
   spec_tracked_after_discovery (example_env (Inr []) [] []) (example_thread [(''A'', 0)]) [] = {}"
  by (simp add: listPacketFilesOnDisk_def syncFilesWithDisk_def returned_thread_def
      spec_tracked_after_discovery_def tracked_def example_env_def example_thread_def)

text \<open>
  Claim C7. Discovery over the listed names always returns, and \<open>SyncFiles\<close> goes on to
  the eviction phase with its result. Every listed name whose blockfile opens is tracked
  afterwards, wherever it stands in the listing; a name that fails to open is the only
  one left out; and the log gains one tracking error for each listed occurrence of an
  untracked name that fails to open, in the order of the listing, and nothing else.
\<close>

theorem discovery_skips_failed_candidate:
  assumes "listPacketFilesOnDisk e t w = Inr (names, w0)"
  shows "\<exists>t' w'. syncFilesWithDisk e t w = Inr (t', w') \<and>
     SyncFiles e ms t w = cleanUpOnLowDiskSpace e t' w' ms \<and>
     tracked t' = tracked t \<union> {n \<in> set names. opens e t n} \<and>
     logged w' = logged w0 @ tracking_errors e t names"
proof -
  obtain t' w' where r: "syncLoop e names t w0 = (t', w')" by (cases "syncLoop e names t w0")
  have "tracked t' = tracked t \<union> {n \<in> set names. opens e t n}"
    using syncLoop_tracked [of e names t w0] r by simp
  moreover have "logged w' = logged w0 @ tracking_errors e t names"
    using syncLoop_logged [of e names t w0] r by simp
  ultimately show ?thesis using assms r by (auto simp: syncFilesWithDisk_def SyncFiles_def)
qed

text \<open>
  The scenario of the claim: the directory lists X and Y, and the blockfile of Y does
  not open. X ends up tracked, and the log has one error, for Y.
\<close>

theorem discovery_skips_failed_candidate_witness:
  "\<exists>t' w'. syncFilesWithDisk
       (example_env (Inr (map regular_file [''X'', ''Y''])) [''PKT0/Y''] [])
       (example_thread []) (example_world 0) = Inr (t', w') \<and>
     tracked t' = {''X''} \<and>
     logged w' =
       [ErrorTracking 0 ''Y'' (CouldNotOpenBlockfile ''PKT0/Y'' (ExternalError ''cannot open''))]"
proof -
  let ?e = "example_env (Inr (map regular_file [''X'', ''Y''])) [''PKT0/Y''] []"
  let ?t = "example_thread []"
  have l: "listPacketFilesOnDisk ?e ?t (example_world 0) = Inr ([''X'', ''Y''], example_world 0)"
    using example_listing [of "[''X'', ''Y'']"] by (simp add: begins_with_dot_def)
  have 1: "tracked ?t \<union> {n \<in> set [''X'', ''Y'']. opens ?e ?t n} = {''X''}"
    by (auto simp: opens_def tracked_def example_thread_def example_env_def)
  have 2: "logged (example_world 0) @ tracking_errors ?e ?t [''X'', ''Y''] =
      [ErrorTracking 0 ''Y'' (CouldNotOpenBlockfile ''PKT0/Y'' (ExternalError ''cannot open''))]"
    by (simp add: tracking_errors_def tracked_def example_thread_def example_env_def
        example_world_def)
  from discovery_skips_failed_candidate [OF l, of "[]"] 1 2 show ?thesis
    by auto
qed

text \<open>
  Claim C6. When every listed name is already tracked and the first measurement of the
  free percentage is above the threshold, \<open>SyncFiles\<close> returns the thread it was given:
  the same tracked files and the same \<open>fileLastSeen\<close>. The world is the one left by the
  listing.
\<close>

theorem SyncFiles_noop_when_nothing_new:
  assumes "listPacketFilesOnDisk e t w = Inr (names, w0)"
    and "set names \<subseteq> tracked t"
    and "df > DiskFreePercentage t"
  shows "SyncFiles e (Inr df # ms) t w = Some (Inr (t, w0))"
  using assms by (simp add: SyncFiles_def syncFilesWithDisk_def syncLoop_noop)

text \<open>The thread tracks A, the directory lists A, and 50 percent of the disk is free.\<close>

theorem SyncFiles_noop_when_nothing_new_witness:
  "SyncFiles (example_env (Inr (map regular_file [''A''])) [] []) [Inr 50]
     (example_thread [(''A'', 0)]) (example_world 1) =
   Some (Inr (example_thread [(''A'', 0)], example_world 1))"
proof -
  let ?e = "example_env (Inr (map regular_file [''A''])) [] []"
  let ?t = "example_thread [(''A'', 0)]"
  have l: "listPacketFilesOnDisk ?e ?t (example_world 1) = Inr ([''A''], example_world 1)"
    using example_listing [of "[''A'']"] by (simp add: begins_with_dot_def)
  have s: "set [''A''] \<subseteq> tracked ?t"
    by (simp add: tracked_def example_thread_def)
  have d: "50 > DiskFreePercentage ?t"
    by (simp add: example_thread_def)
  show ?thesis using SyncFiles_noop_when_nothing_new [OF l s d, of "[]"] by simp
qed

subsection \<open>Lookup\<close>

lemma admitted_Cons:
  "cancel \<noteq> Some 0 \<Longrightarrow>
   admitted cancel (x # xs) = x # admitted (map_option (\<lambda>n. n - 1) cancel) xs"
  by (cases cancel) (auto simp: admitted_def take_Cons split: nat.splits)

lemma fanOut_eq:
  assumes "set names \<subseteq> tracked t"
  shows "\<exists>chans. fanOut lookupFile t q cancel names = Inr chans \<and>
     ConcatPacketChans chans = concat (map (packets_of lookupFile t q) (admitted cancel names))"
  using assms
proof (induction names arbitrary: cancel)
  case Nil
  show ?case by (simp add: ConcatPacketChans_def admitted_def split: option.splits)
next
  case (Cons x xs)
  show ?case
  proof (cases "cancel = Some 0")
    case True
    then show ?thesis by (simp add: ConcatPacketChans_def admitted_def)
  next
    case False
    from Cons.prems obtain b where b: "fmlookup (files t) x = Some b"
      by (auto simp: tracked_iff)
    from Cons.IH [of "map_option (\<lambda>n. n - 1) cancel"] Cons.prems
    obtain chans where c:
      "fanOut lookupFile t q (map_option (\<lambda>n. n - 1) cancel) xs = Inr chans"
      "ConcatPacketChans chans =
         concat (map (packets_of lookupFile t q) (admitted (map_option (\<lambda>n. n - 1) cancel) xs))"
      by auto
    have "fanOut lookupFile t q cancel (x # xs) = Inr ((x, lookupFile b q) # chans)"
      using False b c(1) by simp
    moreover have "ConcatPacketChans ((x, lookupFile b q) # chans) =
        concat (map (packets_of lookupFile t q) (admitted cancel (x # xs)))"
      using c(2) b False by (simp add: admitted_Cons ConcatPacketChans_def packets_of_def)
    ultimately show ?thesis by blast
  qed
qed

lemma fst_packets_of: "p \<in> set (packets_of lookupFile t q f) \<Longrightarrow> fst p = f"
  by (auto simp: packets_of_def split: option.splits)

lemma sorted_concat_packets:
  "sorted names \<Longrightarrow> sorted (map fst (concat (map (packets_of lookupFile t q) names)))"
proof (induction names)
  case Nil
  show ?case by simp
next
  case (Cons f fs)
  have "sorted (map fst (packets_of lookupFile t q f))"
    by (auto simp: packets_of_def sorted_wrt_iff_nth_less comp_def split: option.splits)
  moreover have "\<forall>x \<in> set (packets_of lookupFile t q f).
      \<forall>y \<in> set (concat (map (packets_of lookupFile t q) fs)). fst x \<le> fst y"
    using Cons.prems by (auto dest!: fst_packets_of)
  ultimately show ?case using Cons by (simp add: sorted_append)
qed

lemma sorted_admitted: "sorted names \<Longrightarrow> sorted (admitted cancel names)"
  by (auto simp: admitted_def sorted_wrt_take split: option.splits)

text \<open>
  Claim C3. \<open>Lookup\<close> never panics, and its merged stream is the concatenation, in the
  order of \<open>getSortedFiles\<close>, of the packets of the files handed over before a
  cancellation (all tracked files when there is none). So the files of origin of the
  emitted packets are non-decreasing in the lexicographic order of the names, and a
  packet of a file that sorts before another file comes before every packet of that
  other file.
\<close>

theorem Lookup_in_file_order:
  "\<exists>out. Lookup lookupFile cancel t q = Inr out \<and>
     out = concat (map (packets_of lookupFile t q) (admitted cancel (getSortedFiles t))) \<and>
     sorted (map fst out) \<and>
     (\<forall>i j. i < length out \<and> j < length out \<and> fst (out ! i) < fst (out ! j) \<longrightarrow> i < j)"
proof -
  have "set (getSortedFiles t) \<subseteq> tracked t" by (simp add: getSortedFiles_set)
  from fanOut_eq [OF this, of lookupFile q cancel]
  obtain chans where c: "fanOut lookupFile t q cancel (getSortedFiles t) = Inr chans"
    "ConcatPacketChans chans =
       concat (map (packets_of lookupFile t q) (admitted cancel (getSortedFiles t)))"
    by blast
  let ?out = "concat (map (packets_of lookupFile t q) (admitted cancel (getSortedFiles t)))"
  have run: "Lookup lookupFile cancel t q = Inr ?out"
    using c by (simp add: Lookup_def)
  have s: "sorted (map fst ?out)"
    by (intro sorted_concat_packets sorted_admitted getSortedFiles_sorted)
  have "i < j" if "i < length ?out" "j < length ?out" "fst (?out ! i) < fst (?out ! j)" for i j
  proof (rule ccontr)
    assume "\<not> i < j"
    then have "j \<le> i" by simp
    then have "map fst ?out ! j \<le> map fst ?out ! i"
      using s that(1) by (intro sorted_nth_mono) simp_all
    then show False using that by simp
  qed
  then show ?thesis using run s by blast
qed

text \<open>
  The thread tracks A and B; the query matches three packets of A and none of B. The
  merged stream is the three packets of A.
\<close>

theorem Lookup_in_file_order_witness:
  "Lookup example_lookupFile None (example_thread [(''B'', 1), (''A'', 0)]) () =
     Inr [(''A'', 10), (''A'', 11), (''A'', 12)]"
proof -
  let ?t = "example_thread [(''B'', 1), (''A'', 0)]"
  have s: "getSortedFiles ?t = [''A'', ''B'']" by code_simp
  have "concat (map (packets_of example_lookupFile ?t ()) (admitted None (getSortedFiles ?t))) =
      [(''A'', 10), (''A'', 11), (''A'', 12)]"
    unfolding s by (simp add: admitted_def packets_of_def example_thread_def example_lookupFile_def)
  then show ?thesis using Lookup_in_file_order [of example_lookupFile None ?t "()"] by simp
qed

subsection \<open>The positions handler\<close>















end
